theory Spec2Isabelle
  imports Complex_Main "HOL-Library.Multiset"
begin

section \<open>Scenario valuation and delta/heat comparison (src/src/App.tsx)\<close>

text \<open>
  The development embeds the pure parts of \<^verbatim>\<open>App.tsx\<close>: the selection normaliser
  (\<^verbatim>\<open>buildDefaultSelections\<close>, \<^verbatim>\<open>normalizeSelections\<close>), the evaluation error boundary
  (\<^verbatim>\<open>computeSafe\<close>) and the body of the \<^verbatim>\<open>delta\<close> memo.

  Modelling conventions.
  \<^item> A JavaScript \<^verbatim>\<open>number\<close> is a \<^typ>\<open>real\<close>: the costs, totals and thresholds the
    component handles are finite (every stored number is guarded by \<^verbatim>\<open>Number.isFinite\<close>),
    and rounding, NaN and the infinities are not modelled.
  \<^item> A \<^verbatim>\<open>throw\<close> is the left injection of a sum; the thrown value is a \<open>thrown\<close>.
  \<^item> The catalog \<^verbatim>\<open>VMX_CATEGORIES\<close> and the evaluator \<^verbatim>\<open>computeScenarioResult\<close> are
    imported from \<^verbatim>\<open>./domain/vmx-domain\<close>; they are parameters of the definitions that
    use them.
  \<^item> The React state the memo closes over (\<^verbatim>\<open>compareMode\<close>, the two thresholds, the sort
    mode and the drivers-only flag) is the record \<open>UiState\<close>.
\<close>

subsection \<open>Thrown values\<close>

text \<open>What a \<^verbatim>\<open>catch (e)\<close> can receive: an \<^verbatim>\<open>Error\<close> instance with its message, or any
  other thrown value.\<close>

datatype thrown = Error string | NonError

subsection \<open>Data of the domain module, as App.tsx reads it\<close>

type_synonym VmxCategoryId = string

text \<open>An entry of \<^verbatim>\<open>VMX_CATEGORIES\<close>; the fields are \<^verbatim>\<open>id\<close> and \<^verbatim>\<open>label\<close>.\<close>

record VmxCategory =
  cat_id :: VmxCategoryId
  cat_label :: string

text \<open>An entry of \<^verbatim>\<open>ScenarioResult.categories\<close>. Its \<^verbatim>\<open>categoryId\<close> field is written
  \<open>sc_categoryId\<close>, and the result's \<^verbatim>\<open>currency\<close> is \<open>sr_currency\<close>, since \<open>DeltaRow\<close>
  and the report have fields of the same names.\<close>

record CategoryResult =
  sc_categoryId :: VmxCategoryId
  label :: string
  cost :: real
  pctOfTotal :: real

record ScenarioResult =
  totalCost :: real
  sr_currency :: string
  categories :: "CategoryResult list"

subsection \<open>Array.prototype.sort\<close>

text \<open>
  \<^verbatim>\<open>xs.sort(cmp)\<close> is stable (ECMAScript 2019), so for a consistent comparator its result is
  the one stable ordering of \<open>xs\<close>. It is modelled by the stable insertion sort: an element
  goes in front of the first element it does not compare greater than.
\<close>

fun insert_by :: "('a \<Rightarrow> 'a \<Rightarrow> real) \<Rightarrow> 'a \<Rightarrow> 'a list \<Rightarrow> 'a list" where
  "insert_by cmp x [] = [x]"
| "insert_by cmp x (y # ys) = (if cmp x y \<le> 0 then x # y # ys else y # insert_by cmp x ys)"

definition js_sort :: "('a \<Rightarrow> 'a \<Rightarrow> real) \<Rightarrow> 'a list \<Rightarrow> 'a list" where
  "js_sort cmp xs = foldr (insert_by cmp) xs []"

subsection \<open>The delta memo\<close>

datatype DeltaHeat = low | medium | high
datatype DeltaDirection = increase | decrease | flat
datatype DeltaSortMode = impact | category

record DeltaRow =
  categoryId :: VmxCategoryId
  categoryLabel :: string
  deltaCost :: real
  deltaPct :: real
  absFracOfATotal :: real
  direction :: DeltaDirection
  heat :: DeltaHeat
  isTopDriver :: bool

record UiState =
  compareMode :: bool
  deltaMediumThr :: real
  deltaHighThr :: real
  deltaSort :: DeltaSortMode
  deltaDriversOnly :: bool

record DeltaReport =
  totalDelta :: real
  rows :: "DeltaRow list"
  increases :: "DeltaRow list"
  decreases :: "DeltaRow list"
  currency :: string
  aTotal :: real
  bTotal :: real

text \<open>Lines 397-399: the heat of an impact fraction.\<close>

definition heatOf :: "UiState \<Rightarrow> real \<Rightarrow> DeltaHeat" where
  "heatOf st absFrac =
    (if absFrac \<ge> deltaHighThr st then high
     else if absFrac \<ge> deltaMediumThr st then medium else low)"

text \<open>Lines 389-410: the row built from an entry \<open>a\<close> of scenario A and its counterpart
  \<open>b\<close> of scenario B; \<open>aTot\<close> is the local \<^verbatim>\<open>aTotal\<close> of line 382.\<close>

definition baseRow :: "UiState \<Rightarrow> real \<Rightarrow> CategoryResult \<Rightarrow> CategoryResult \<Rightarrow> DeltaRow" where
  "baseRow st aTot a b =
    (let dCost = cost b - cost a;
         dPct = pctOfTotal b - pctOfTotal a;
         absFrac = \<bar>dCost\<bar> / aTot;
         dir = (if dCost > 0 then increase else if dCost < 0 then decrease else flat);
         ht = heatOf st absFrac
     in \<lparr> categoryId = sc_categoryId a, categoryLabel = label a, deltaCost = dCost,
          deltaPct = dPct, absFracOfATotal = absFrac, direction = dir, heat = ht,
          isTopDriver = False \<rparr>)"

text \<open>Lines 385-411: \<^verbatim>\<open>resultA.categories.map\<close>, whose callback throws at the first entry of
  A that \<^verbatim>\<open>find\<close> does not locate in B.\<close>

fun baseRows :: "UiState \<Rightarrow> real \<Rightarrow> CategoryResult list \<Rightarrow> CategoryResult list
    \<Rightarrow> thrown + DeltaRow list" where
  "baseRows st aTot [] bs = Inr []"
| "baseRows st aTot (a # as) bs =
    (case find (\<lambda>x. sc_categoryId x = sc_categoryId a) bs of
       None \<Rightarrow> Inl (Error (''Missing category in Scenario B: '' @ sc_categoryId a))
     | Some b \<Rightarrow>
        (case baseRows st aTot as bs of
           Inl e \<Rightarrow> Inl e
         | Inr rs \<Rightarrow> Inr (baseRow st aTot a b # rs)))"

text \<open>Lines 413-415: the ids of the first three eligible rows by absolute delta.\<close>

definition topSet :: "DeltaRow list \<Rightarrow> VmxCategoryId set" where
  "topSet base =
    (let eligible = filter (\<lambda>r. \<bar>deltaCost r\<bar> > 0) base;
         byAbs = js_sort (\<lambda>x y. \<bar>deltaCost y\<bar> - \<bar>deltaCost x\<bar>) eligible
     in set (map categoryId (take 3 byAbs)))"

text \<open>Lines 417-421: the driver flag and the heat upgrade.\<close>

definition markRow :: "VmxCategoryId set \<Rightarrow> DeltaRow \<Rightarrow> DeltaRow" where
  "markRow tops r =
    (let isTop = (categoryId r \<in> tops);
         ht = (if isTop \<and> heat r = low \<and> absFracOfATotal r > 0 then medium else heat r)
     in r\<lparr> isTopDriver := isTop, heat := ht \<rparr>)"

definition markRows :: "DeltaRow list \<Rightarrow> DeltaRow list" where
  "markRows base = map (markRow (topSet base)) base"

text \<open>Line 426: \<^verbatim>\<open>new Map(VMX_CATEGORIES.map((c, idx) => [c.id, idx]))\<close>; a later entry of
  the same key replaces an earlier one.\<close>

definition order :: "VmxCategory list \<Rightarrow> VmxCategoryId \<Rightarrow> nat option" where
  "order cats = map_of (rev (zip (map cat_id cats) [0..<length cats]))"

text \<open>\<^verbatim>\<open>order.get(id) ?? 999\<close>.\<close>

definition orderOr999 :: "VmxCategory list \<Rightarrow> VmxCategoryId \<Rightarrow> real" where
  "orderOr999 cats k = (case order cats k of Some idx \<Rightarrow> real idx | None \<Rightarrow> 999)"

text \<open>Lines 423-428.\<close>

definition sortRows :: "VmxCategory list \<Rightarrow> DeltaSortMode \<Rightarrow> DeltaRow list \<Rightarrow> DeltaRow list" where
  "sortRows cats mode rs =
    (if mode = impact then js_sort (\<lambda>a b. \<bar>deltaCost b\<bar> - \<bar>deltaCost a\<bar>) rs
     else js_sort (\<lambda>a b. orderOr999 cats (categoryId a) - orderOr999 cats (categoryId b)) rs)"

text \<open>Line 430.\<close>

definition filterRows :: "bool \<Rightarrow> DeltaRow list \<Rightarrow> DeltaRow list" where
  "filterRows driversOnly rs = (if driversOnly then filter isTopDriver rs else rs)"

text \<open>Lines 432-433, as functions of the \<^verbatim>\<open>rows\<close> they read.\<close>

definition increasesOf :: "DeltaRow list \<Rightarrow> DeltaRow list" where
  "increasesOf rs =
     take 3 (js_sort (\<lambda>a b. deltaCost b - deltaCost a) (filter (\<lambda>r. deltaCost r > 0) rs))"

definition decreasesOf :: "DeltaRow list \<Rightarrow> DeltaRow list" where
  "decreasesOf rs =
     take 3 (js_sort (\<lambda>a b. deltaCost a - deltaCost b) (filter (\<lambda>r. deltaCost r < 0) rs))"

text \<open>Lines 382-443: the memo's body once both results are present.\<close>

definition deltaBody :: "VmxCategory list \<Rightarrow> UiState \<Rightarrow> ScenarioResult \<Rightarrow> ScenarioResult
    \<Rightarrow> thrown + DeltaReport" where
  "deltaBody cats st resultA resultB =
    (let aTot = (if totalCost resultA > 0 then totalCost resultA else 1);
         tDelta = totalCost resultB - totalCost resultA
     in case baseRows st aTot (categories resultA) (categories resultB) of
          Inl e \<Rightarrow> Inl e
        | Inr base \<Rightarrow>
           (let rs = markRows base;
                rs = sortRows cats (deltaSort st) rs;
                rs = filterRows (deltaDriversOnly st) rs
            in Inr \<lparr> totalDelta = tDelta, rows = rs, increases = increasesOf rs,
                     decreases = decreasesOf rs, currency = sr_currency resultA,
                     aTotal = totalCost resultA, bTotal = totalCost resultB \<rparr>))"

text \<open>Lines 379-444: the memo; \<open>None\<close> is the \<^verbatim>\<open>null\<close> of line 380.\<close>

definition delta :: "VmxCategory list \<Rightarrow> UiState \<Rightarrow> ScenarioResult option
    \<Rightarrow> ScenarioResult option \<Rightarrow> thrown + DeltaReport option" where
  "delta cats st resultA resultB =
    (if \<not> compareMode st then Inr None
     else case resultA of
       None \<Rightarrow> Inr None
     | Some a \<Rightarrow>
        (case resultB of
           None \<Rightarrow> Inr None
         | Some b \<Rightarrow>
            (case deltaBody cats st a b of Inl e \<Rightarrow> Inl e | Inr rep \<Rightarrow> Inr (Some rep))))"

subsection \<open>The evaluation error boundary\<close>

record 'r Computed =
  result :: "'r option"
  error :: "string option"

text \<open>Lines 111-126. \<open>computeScenarioResult\<close> is the imported evaluator: it returns a
  result or throws.\<close>

definition computeSafe :: "(real \<Rightarrow> 'b \<Rightarrow> 's list \<Rightarrow> thrown + 'r) \<Rightarrow> real \<Rightarrow> 'b \<Rightarrow> 's list
    \<Rightarrow> 'r Computed" where
  "computeSafe computeScenarioResult areaSqft benchmark selections =
    (case computeScenarioResult areaSqft benchmark selections of
       Inr r \<Rightarrow> \<lparr> result = Some r, error = None \<rparr>
     | Inl e \<Rightarrow> \<lparr> result = None,
                 error = Some (case e of Error msg \<Rightarrow> msg | NonError \<Rightarrow> ''Unknown error'') \<rparr>)"

subsection \<open>Selections read back from storage\<close>

text \<open>
  The values \<^verbatim>\<open>readJson\<close> can hand to \<^verbatim>\<open>normalizeSelections\<close>: \<^verbatim>\<open>null\<close> or the result of
  \<^verbatim>\<open>JSON.parse\<close>. An object carries its members in the order of the JSON text; reading a
  property takes the last member of that key, as \<^verbatim>\<open>JSON.parse\<close> keeps it. An array is an
  object whose keys are its indices and \<^verbatim>\<open>length\<close>. Inherited properties are functions or
  \<^verbatim>\<open>Object.prototype\<close>, which fail the test of lines 48-53 as \<^verbatim>\<open>undefined\<close> does, so a key
  that is not a member reads as \<open>JUndefined\<close>.
\<close>

datatype jsval =
    JNull | JUndefined | JBool bool | JNumber real | JString string
  | JObject "(string \<times> jsval) list"

fun truthy :: "jsval \<Rightarrow> bool" where
  "truthy JNull = False"
| "truthy JUndefined = False"
| "truthy (JBool b) = b"
| "truthy (JNumber n) = (n \<noteq> 0)"
| "truthy (JString s) = (s \<noteq> [])"
| "truthy (JObject kvs) = True"

fun typeof :: "jsval \<Rightarrow> string" where
  "typeof JNull = ''object''"
| "typeof JUndefined = ''undefined''"
| "typeof (JBool b) = ''boolean''"
| "typeof (JNumber n) = ''number''"
| "typeof (JString s) = ''string''"
| "typeof (JObject kvs) = ''object''"

fun getProp :: "jsval \<Rightarrow> string \<Rightarrow> jsval" where
  "getProp (JObject kvs) k = (case map_of (rev kvs) k of Some v \<Rightarrow> v | None \<Rightarrow> JUndefined)"
| "getProp v k = JUndefined"

type_synonym Selections = "VmxCategoryId \<Rightarrow> jsval option"

text \<open>Lines 31-35.\<close>

definition buildDefaultSelections :: "VmxCategory list \<Rightarrow> Selections" where
  "buildDefaultSelections cats =
    fold (\<lambda>c rec. rec(cat_id c \<mapsto>
            JObject [(''categoryId'', JString (cat_id c)), (''band'', JString ''MEDIUM'')]))
         cats Map.empty"

text \<open>Lines 48-53: the test a stored entry has to pass for the catalog key \<open>k\<close>.\<close>

definition keeps :: "VmxCategoryId \<Rightarrow> jsval \<Rightarrow> bool" where
  "keeps k maybe \<longleftrightarrow>
     truthy maybe \<and> typeof maybe = ''object'' \<and>
     (getProp maybe ''band'' = JString ''LOW'' \<or> getProp maybe ''band'' = JString ''MEDIUM''
        \<or> getProp maybe ''band'' = JString ''HIGH'') \<and>
     getProp maybe ''categoryId'' = JString k"

text \<open>Lines 37-61. No step of the body can throw on a \<open>jsval\<close>, so the \<^verbatim>\<open>catch\<close> branch
  has no counterpart.\<close>

definition normalizeSelections :: "VmxCategory list \<Rightarrow> jsval \<Rightarrow> Selections \<Rightarrow> Selections" where
  "normalizeSelections cats input fallback =
    (if \<not> truthy input \<or> typeof input \<noteq> ''object'' then fallback
     else fold (\<lambda>c out. let maybe = getProp input (cat_id c)
                         in if keeps (cat_id c) maybe then out(cat_id c \<mapsto> maybe) else out)
               cats fallback)"

subsection \<open>Notions used to state the properties\<close>


text \<open>The position of the first occurrence of a key in a list (its length if there is
  none), and the catalog position of a category id.\<close>

fun indexOf :: "'a list \<Rightarrow> 'a \<Rightarrow> nat" where
  "indexOf [] k = 0"
| "indexOf (x # xs) k = (if x = k then 0 else Suc (indexOf xs k))"

definition catalogPos :: "VmxCategory list \<Rightarrow> VmxCategoryId \<Rightarrow> nat" where
  "catalogPos cats k = indexOf (map cat_id cats) k"

text \<open>The invariant of a \<^verbatim>\<open>ScenarioResult\<close>: one entry per catalog category, in catalog
  order.\<close>

definition followsCatalog :: "VmxCategory list \<Rightarrow> ScenarioResult \<Rightarrow> bool" where
  "followsCatalog cats res \<longleftrightarrow>
     distinct (map cat_id cats) \<and> map sc_categoryId (categories res) = map cat_id cats"

text \<open>Row \<open>s\<close> ranks ahead of row \<open>r\<close> among the candidates for top driver: its delta is
  not zero and its absolute delta is larger, or equal with an earlier catalog position.\<close>

definition outranks :: "VmxCategory list \<Rightarrow> DeltaRow \<Rightarrow> DeltaRow \<Rightarrow> bool" where
  "outranks cats r s \<longleftrightarrow>
     deltaCost s \<noteq> 0 \<and>
     (\<bar>deltaCost s\<bar> > \<bar>deltaCost r\<bar> \<or>
      (\<bar>deltaCost s\<bar> = \<bar>deltaCost r\<bar> \<and>
       catalogPos cats (categoryId s) < catalogPos cats (categoryId r)))"

text \<open>A stored selection that is complete for the catalog key \<open>k\<close>.\<close>

definition selectionFor :: "VmxCategoryId \<Rightarrow> jsval \<Rightarrow> bool" where
  "selectionFor k v \<longleftrightarrow>
     typeof v = ''object'' \<and> getProp v ''categoryId'' = JString k \<and>
     getProp v ''band'' \<in> {JString ''LOW'', JString ''MEDIUM'', JString ''HIGH''}"

subsection \<open>Example data\<close>

text \<open>A catalog of five categories and two scenarios over it. Scenario A costs 2000 in
  every category; scenario B changes the costs by +400, -100, +100, 0 and -100.\<close>

definition demoCats :: "VmxCategory list" where
  "demoCats =
    [\<lparr>cat_id = ''P'', cat_label = ''Power''\<rparr>, \<lparr>cat_id = ''Q'', cat_label = ''Quality''\<rparr>,
     \<lparr>cat_id = ''R'', cat_label = ''Rent''\<rparr>, \<lparr>cat_id = ''S'', cat_label = ''Staff''\<rparr>,
     \<lparr>cat_id = ''T'', cat_label = ''Tax''\<rparr>]"

definition demoA :: ScenarioResult where
  "demoA = \<lparr> totalCost = 10000, sr_currency = ''USD'', categories =
     [\<lparr>sc_categoryId = ''P'', label = ''Power'', cost = 2000, pctOfTotal = 1/5\<rparr>,
      \<lparr>sc_categoryId = ''Q'', label = ''Quality'', cost = 2000, pctOfTotal = 1/5\<rparr>,
      \<lparr>sc_categoryId = ''R'', label = ''Rent'', cost = 2000, pctOfTotal = 1/5\<rparr>,
      \<lparr>sc_categoryId = ''S'', label = ''Staff'', cost = 2000, pctOfTotal = 1/5\<rparr>,
      \<lparr>sc_categoryId = ''T'', label = ''Tax'', cost = 2000, pctOfTotal = 1/5\<rparr>] \<rparr>"

definition demoB :: ScenarioResult where
  "demoB = \<lparr> totalCost = 10300, sr_currency = ''USD'', categories =
     [\<lparr>sc_categoryId = ''P'', label = ''Power'', cost = 2400, pctOfTotal = 24/103\<rparr>,
      \<lparr>sc_categoryId = ''Q'', label = ''Quality'', cost = 1900, pctOfTotal = 19/103\<rparr>,
      \<lparr>sc_categoryId = ''R'', label = ''Rent'', cost = 2100, pctOfTotal = 21/103\<rparr>,
      \<lparr>sc_categoryId = ''S'', label = ''Staff'', cost = 2000, pctOfTotal = 20/103\<rparr>,
      \<lparr>sc_categoryId = ''T'', label = ''Tax'', cost = 1900, pctOfTotal = 19/103\<rparr>] \<rparr>"

text \<open>The default thresholds of lines 244-262 (1.5 and 3 percent), sorted by impact, all
  rows shown.\<close>

definition demoSt :: UiState where
  "demoSt = \<lparr> compareMode = True, deltaMediumThr = 15/1000, deltaHighThr = 3/100,
              deltaSort = impact, deltaDriversOnly = False \<rparr>"

text \<open>The rows the comparison of \<open>demoA\<close> with \<open>demoB\<close> yields.\<close>

definition rowP :: DeltaRow where
  "rowP = \<lparr> categoryId = ''P'', categoryLabel = ''Power'', deltaCost = 400,
     deltaPct = 17 / 515, absFracOfATotal = 1 / 25, direction = increase, heat = high,
     isTopDriver = True \<rparr>"

definition rowQ :: DeltaRow where
  "rowQ = \<lparr> categoryId = ''Q'', categoryLabel = ''Quality'', deltaCost = - 100,
     deltaPct = - (8 / 515), absFracOfATotal = 1 / 100, direction = decrease, heat = medium,
     isTopDriver = True \<rparr>"

definition rowR :: DeltaRow where
  "rowR = \<lparr> categoryId = ''R'', categoryLabel = ''Rent'', deltaCost = 100,
     deltaPct = 2 / 515, absFracOfATotal = 1 / 100, direction = increase, heat = medium,
     isTopDriver = True \<rparr>"

definition rowS :: DeltaRow where
  "rowS = \<lparr> categoryId = ''S'', categoryLabel = ''Staff'', deltaCost = 0,
     deltaPct = - (3 / 515), absFracOfATotal = 0, direction = flat, heat = low,
     isTopDriver = False \<rparr>"

definition rowT :: DeltaRow where
  "rowT = \<lparr> categoryId = ''T'', categoryLabel = ''Tax'', deltaCost = - 100,
     deltaPct = - (8 / 515), absFracOfATotal = 1 / 100, direction = decrease, heat = low,
     isTopDriver = False \<rparr>"

text \<open>The report under \<open>demoSt\<close>, and the reports with the drivers-only filter and with
  the category sort.\<close>

definition demoReport :: DeltaReport where
  "demoReport = \<lparr> totalDelta = 300, rows = [rowP, rowQ, rowR, rowT, rowS],
     increases = [rowP, rowR], decreases = [rowQ, rowT], currency = ''USD'',
     aTotal = 10000, bTotal = 10300 \<rparr>"

definition demoReportDrivers :: DeltaReport where
  "demoReportDrivers = \<lparr> totalDelta = 300, rows = [rowP, rowQ, rowR],
     increases = [rowP, rowR], decreases = [rowQ], currency = ''USD'',
     aTotal = 10000, bTotal = 10300 \<rparr>"

definition demoReportCategory :: DeltaReport where
  "demoReportCategory = \<lparr> totalDelta = 300, rows = [rowP, rowQ, rowR, rowS, rowT],
     increases = [rowP, rowR], decreases = [rowQ, rowT], currency = ''USD'',
     aTotal = 10000, bTotal = 10300 \<rparr>"

text \<open>The report of the comparison in the other direction, \<open>demoB\<close> against \<open>demoA\<close>.\<close>

definition demoReportBA :: DeltaReport where
  "demoReportBA = \<lparr> totalDelta = - 300,
     rows =
       [\<lparr> categoryId = ''P'', categoryLabel = ''Power'', deltaCost = - 400,
           deltaPct = - (17 / 515), absFracOfATotal = 4 / 103, direction = decrease,
           heat = high, isTopDriver = True \<rparr>,
        \<lparr> categoryId = ''Q'', categoryLabel = ''Quality'', deltaCost = 100,
           deltaPct = 8 / 515, absFracOfATotal = 1 / 103, direction = increase,
           heat = medium, isTopDriver = True \<rparr>,
        \<lparr> categoryId = ''R'', categoryLabel = ''Rent'', deltaCost = - 100,
           deltaPct = - (2 / 515), absFracOfATotal = 1 / 103, direction = decrease,
           heat = medium, isTopDriver = True \<rparr>,
        \<lparr> categoryId = ''T'', categoryLabel = ''Tax'', deltaCost = 100,
           deltaPct = 8 / 515, absFracOfATotal = 1 / 103, direction = increase,
           heat = low, isTopDriver = False \<rparr>,
        \<lparr> categoryId = ''S'', categoryLabel = ''Staff'', deltaCost = 0,
           deltaPct = 3 / 515, absFracOfATotal = 0, direction = flat,
           heat = low, isTopDriver = False \<rparr>],
     increases =
       [\<lparr> categoryId = ''Q'', categoryLabel = ''Quality'', deltaCost = 100,
           deltaPct = 8 / 515, absFracOfATotal = 1 / 103, direction = increase,
           heat = medium, isTopDriver = True \<rparr>,
        \<lparr> categoryId = ''T'', categoryLabel = ''Tax'', deltaCost = 100,
           deltaPct = 8 / 515, absFracOfATotal = 1 / 103, direction = increase,
           heat = low, isTopDriver = False \<rparr>],
     decreases =
       [\<lparr> categoryId = ''P'', categoryLabel = ''Power'', deltaCost = - 400,
           deltaPct = - (17 / 515), absFracOfATotal = 4 / 103, direction = decrease,
           heat = high, isTopDriver = True \<rparr>,
        \<lparr> categoryId = ''R'', categoryLabel = ''Rent'', deltaCost = - 100,
           deltaPct = - (2 / 515), absFracOfATotal = 1 / 103, direction = decrease,
           heat = medium, isTopDriver = True \<rparr>],
     currency = ''USD'', aTotal = 10300, bTotal = 10000 \<rparr>"

text \<open>Two scenarios of one category whose baseline total lies between 0 and 1.\<close>

definition tinyCats :: "VmxCategory list" where
  "tinyCats = [\<lparr>cat_id = ''P'', cat_label = ''Power''\<rparr>]"

definition tinyA :: ScenarioResult where
  "tinyA = \<lparr> totalCost = 1/2, sr_currency = ''USD'', categories =
     [\<lparr>sc_categoryId = ''P'', label = ''Power'', cost = 1/2, pctOfTotal = 1\<rparr>] \<rparr>"

definition tinyB :: ScenarioResult where
  "tinyB = \<lparr> totalCost = 1, sr_currency = ''USD'', categories =
     [\<lparr>sc_categoryId = ''P'', label = ''Power'', cost = 1, pctOfTotal = 1\<rparr>] \<rparr>"

definition tinyReport :: DeltaReport where
  "tinyReport = \<lparr> totalDelta = 1/2,
     rows = [\<lparr> categoryId = ''P'', categoryLabel = ''Power'', deltaCost = 1/2, deltaPct = 0,
               absFracOfATotal = 1, direction = increase, heat = high, isTopDriver = True \<rparr>],
     increases = [\<lparr> categoryId = ''P'', categoryLabel = ''Power'', deltaCost = 1/2,
               deltaPct = 0, absFracOfATotal = 1, direction = increase, heat = high,
               isTopDriver = True \<rparr>],
     decreases = [], currency = ''USD'', aTotal = 1/2, bTotal = 1 \<rparr>"

text \<open>Scenario B without the category \<open>R\<close>.\<close>

definition demoBnoR :: ScenarioResult where
  "demoBnoR = demoB \<lparr> categories := filter (\<lambda>c. sc_categoryId c \<noteq> ''R'') (categories demoB) \<rparr>"

text \<open>A record of selections that holds one complete selection for every catalog key and
  nothing else: what the type \<^verbatim>\<open>Record<VmxCategoryId, ScenarioSelection>\<close> promises.\<close>

definition completeFor :: "VmxCategory list \<Rightarrow> Selections \<Rightarrow> bool" where
  "completeFor cats sel \<longleftrightarrow>
     dom sel = set (map cat_id cats) \<and>
     (\<forall>k\<in>set (map cat_id cats). \<exists>v. sel k = Some v \<and> selectionFor k v)"

text \<open>A stored value with a valid entry, a bad band, a non-object, a foreign category id, a
  key outside the catalog and a repeated key.\<close>

definition storedInput :: jsval where
  "storedInput = JObject
     [(''P'', JObject [(''categoryId'', JString ''P''), (''band'', JString ''LOW'')]),
      (''Q'', JObject [(''categoryId'', JString ''Q''), (''band'', JString ''EXTREME'')]),
      (''R'', JString ''HIGH''),
      (''S'', JObject [(''categoryId'', JString ''T''), (''band'', JString ''LOW'')]),
      (''Z'', JObject [(''categoryId'', JString ''Z''), (''band'', JString ''LOW'')]),
      (''P'', JObject [(''categoryId'', JString ''P''), (''band'', JString ''HIGH''),
                       (''note'', JNumber 1)])]"

text \<open>Scenario A with its categories in the reverse of the catalog order, and the report of
  its comparison with \<open>demoB\<close> under the category sort: the ties of absolute delta now
  fall to \<open>T\<close> and \<open>R\<close>, so \<open>T\<close> is a driver and \<open>Q\<close> is not.\<close>

definition demoArev :: ScenarioResult where
  "demoArev = demoA \<lparr> categories := rev (categories demoA) \<rparr>"

definition demoReportCategoryRev :: DeltaReport where
  "demoReportCategoryRev = \<lparr> totalDelta = 300,
     rows = [rowP, rowQ\<lparr>heat := low, isTopDriver := False\<rparr>, rowR, rowS,
             rowT\<lparr>heat := medium, isTopDriver := True\<rparr>],
     increases = [rowP, rowR],
     decreases = [rowQ\<lparr>heat := low, isTopDriver := False\<rparr>,
                  rowT\<lparr>heat := medium, isTopDriver := True\<rparr>],
     currency = ''USD'', aTotal = 10000, bTotal = 10300 \<rparr>"

text \<open>A stand-in for the imported evaluator: it rejects a non-positive area by throwing
  an \<^verbatim>\<open>Error\<close>, and returns \<open>demoA\<close> otherwise.\<close>

definition demoEvaluate :: "real \<Rightarrow> unit \<Rightarrow> jsval list \<Rightarrow> thrown + ScenarioResult" where
  "demoEvaluate areaSqft benchmark selections =
     (if areaSqft > 0 then Inr demoA else Inl (Error ''areaSqft must be positive''))"

section \<open>Properties\<close>

subsection \<open>Sorting\<close>

lemma js_sort_by_key:
  assumes "\<And>x y. cmp x y \<le> 0 \<longleftrightarrow> k x \<le> k y"
  shows "js_sort cmp xs = sort_key k xs"
proof -
  have "insert_by cmp x ys = insort_key k x ys" for x ys
    by (induction ys) (simp_all add: assms)
  then show ?thesis by (induction xs) (simp_all add: js_sort_def sort_key_def)
qed

lemma mset_insert_by: "mset (insert_by cmp x ys) = add_mset x (mset ys)"
  by (induction ys) auto

lemma mset_js_sort: "mset (js_sort cmp xs) = mset xs"
  by (induction xs) (auto simp: js_sort_def mset_insert_by)

lemma set_js_sort: "set (js_sort cmp xs) = set xs"
  by (metis mset_js_sort set_mset_mset)

lemma length_filter_js_sort: "length (filter P (js_sort cmp xs)) = length (filter P xs)"
  by (metis mset_js_sort mset_filter size_mset)

subsection \<open>The rows of a report\<close>

lemma baseRows_Inr:
  "baseRows st t as bs = Inr rs \<Longrightarrow>
     rs = map (\<lambda>a. baseRow st t a (the (find (\<lambda>x. sc_categoryId x = sc_categoryId a) bs))) as
     \<and> (\<forall>a\<in>set as. find (\<lambda>x. sc_categoryId x = sc_categoryId a) bs \<noteq> None)"
  by (induction as arbitrary: rs) (auto split: option.splits sum.splits)

lemma baseRows_ids: "baseRows st t as bs = Inr rs \<Longrightarrow> map categoryId rs = map sc_categoryId as"
  by (drule baseRows_Inr) (simp add: baseRow_def Let_def comp_def)

lemma baseRows_missing:
  "\<exists>a\<in>set as. sc_categoryId a \<notin> sc_categoryId ` set bs \<Longrightarrow>
   \<exists>c. c \<in> sc_categoryId ` set as \<and> c \<notin> sc_categoryId ` set bs \<and>
       baseRows st t as bs = Inl (Error (''Missing category in Scenario B: '' @ c))"
proof (induction as)
  case Nil
  then show ?case by simp
next
  case (Cons a as)
  show ?case
  proof (cases "find (\<lambda>x. sc_categoryId x = sc_categoryId a) bs")
    case None
    then have "sc_categoryId a \<notin> sc_categoryId ` set bs"
      by (auto simp: find_None_iff)
    with None show ?thesis by auto
  next
    case (Some b)
    then have "sc_categoryId a \<in> sc_categoryId ` set bs"
      by (auto simp: find_Some_iff) (metis nth_mem image_eqI)
    with Cons.prems have "\<exists>a\<in>set as. sc_categoryId a \<notin> sc_categoryId ` set bs" by auto
    from Cons.IH[OF this] obtain c where
      "c \<in> sc_categoryId ` set as" "c \<notin> sc_categoryId ` set bs"
      "baseRows st t as bs = Inl (Error (''Missing category in Scenario B: '' @ c))" by blast
    with Some show ?thesis by auto
  qed
qed

lemma delta_Some:
  "compareMode st \<Longrightarrow> delta cats st (Some A) (Some B) = Inr (Some rep) \<Longrightarrow>
     \<exists>base. baseRows st (if totalCost A > 0 then totalCost A else 1) (categories A) (categories B) = Inr base \<and>
       rows rep = filterRows (deltaDriversOnly st) (sortRows cats (deltaSort st) (markRows base)) \<and>
       increases rep = increasesOf (rows rep) \<and> decreases rep = decreasesOf (rows rep) \<and>
       totalDelta rep = totalCost B - totalCost A \<and> currency rep = sr_currency A \<and>
       aTotal rep = totalCost A \<and> bTotal rep = totalCost B"
  by (auto simp: delta_def deltaBody_def Let_def split: sum.splits)

lemma set_sortRows: "set (sortRows cats mode rs) = set rs"
  by (simp add: sortRows_def set_js_sort)

lemma set_filterRows: "set (filterRows d rs) \<subseteq> set rs"
  by (auto simp: filterRows_def)

lemma report_row:
  assumes "compareMode st" "delta cats st (Some A) (Some B) = Inr (Some rep)" "r \<in> set (rows rep)"
  shows "\<exists>a b tops. a \<in> set (categories A) \<and>
           find (\<lambda>x. sc_categoryId x = sc_categoryId a) (categories B) = Some b \<and>
           r = markRow tops (baseRow st (if totalCost A > 0 then totalCost A else 1) a b)"
proof -
  from delta_Some[OF assms(1,2)] obtain base where
    base: "baseRows st (if totalCost A > 0 then totalCost A else 1) (categories A) (categories B) = Inr base"
    and rws: "rows rep = filterRows (deltaDriversOnly st) (sortRows cats (deltaSort st) (markRows base))"
    by blast
  from assms(3) rws have "r \<in> set (markRows base)"
    using set_filterRows set_sortRows by fastforce
  then obtain r0 where r0: "r0 \<in> set base" "r = markRow (topSet base) r0"
    by (auto simp: markRows_def)
  from baseRows_Inr[OF base] r0(1) obtain a where
    a: "a \<in> set (categories A)"
       "r0 = baseRow st (if totalCost A > 0 then totalCost A else 1) a (the (find (\<lambda>x. sc_categoryId x = sc_categoryId a) (categories B)))"
       "find (\<lambda>x. sc_categoryId x = sc_categoryId a) (categories B) \<noteq> None"
    by auto
  then show ?thesis using r0(2) by fastforce
qed

subsection \<open>The examples, evaluated\<close>

lemmas demo_defs = demoCats_def demoA_def demoB_def demoSt_def rowP_def rowQ_def rowR_def rowS_def rowT_def
lemmas delta_defs = delta_def deltaBody_def baseRow_def heatOf_def markRows_def markRow_def topSet_def
  js_sort_def sortRows_def filterRows_def increasesOf_def decreasesOf_def order_def orderOr999_def Let_def

lemma demo_delta: "delta demoCats demoSt (Some demoA) (Some demoB) = Inr (Some demoReport)"
  by (simp add: delta_defs demo_defs demoReport_def)

lemma demo_delta_drivers:
  "delta demoCats (demoSt\<lparr>deltaDriversOnly := True\<rparr>) (Some demoA) (Some demoB) = Inr (Some demoReportDrivers)"
  by (simp add: delta_defs demo_defs demoReportDrivers_def)

lemma demo_delta_category:
  "delta demoCats (demoSt\<lparr>deltaSort := category\<rparr>) (Some demoA) (Some demoB) = Inr (Some demoReportCategory)"
  by (simp add: delta_defs demo_defs demoReportCategory_def)

lemma demo_delta_category_rev:
  "delta demoCats (demoSt\<lparr>deltaSort := category\<rparr>) (Some demoArev) (Some demoB)
     = Inr (Some demoReportCategoryRev)"
  by (simp add: delta_defs demo_defs demoArev_def demoReportCategoryRev_def)

lemma demo_delta_BA: "delta demoCats demoSt (Some demoB) (Some demoA) = Inr (Some demoReportBA)"
  by (simp add: delta_defs demo_defs demoReportBA_def)

lemma tiny_delta: "delta tinyCats demoSt (Some tinyA) (Some tinyB) = Inr (Some tinyReport)"
  by (simp add: delta_defs demoSt_def tinyCats_def tinyA_def tinyB_def tinyReport_def)

lemma demo_delta_noR:
  "delta demoCats demoSt (Some demoA) (Some demoBnoR) = Inl (Error ''Missing category in Scenario B: R'')"
  by (simp add: delta_defs demo_defs demoBnoR_def)

subsection \<open>Fields of a row\<close>

lemma markRow_fields [simp]:
  "categoryId (markRow tops r) = categoryId r"
  "deltaCost (markRow tops r) = deltaCost r"
  "deltaPct (markRow tops r) = deltaPct r"
  "absFracOfATotal (markRow tops r) = absFracOfATotal r"
  "isTopDriver (markRow tops r) = (categoryId r \<in> tops)"
  "heat (markRow tops r) =
     (if categoryId r \<in> tops \<and> heat r = low \<and> absFracOfATotal r > 0 then medium else heat r)"
  by (simp_all add: markRow_def Let_def)

lemma baseRow_fields [simp]:
  "categoryId (baseRow st t a b) = sc_categoryId a"
  "deltaCost (baseRow st t a b) = cost b - cost a"
  "deltaPct (baseRow st t a b) = pctOfTotal b - pctOfTotal a"
  "absFracOfATotal (baseRow st t a b) = \<bar>cost b - cost a\<bar> / t"
  "heat (baseRow st t a b) = heatOf st (\<bar>cost b - cost a\<bar> / t)"
  by (simp_all add: baseRow_def Let_def)

text \<open>
  Claim C9. \<open>computeSafe\<close> turns a result of the evaluator into the pair of that result and
  no error, an \<^verbatim>\<open>Error\<close> the evaluator throws into the pair of no result and the error's
  message, and any other thrown value into the pair of no result and \<^verbatim>\<open>"Unknown error"\<close>;
  in every outcome exactly one of \<open>result\<close> and \<open>error\<close> is null.
\<close>
theorem computeSafe_outcomes:
  "(computeScenarioResult a b s = Inr r \<longrightarrow>
      computeSafe computeScenarioResult a b s = \<lparr> result = Some r, error = None \<rparr>) \<and>
   (computeScenarioResult a b s = Inl (Error msg) \<longrightarrow>
      computeSafe computeScenarioResult a b s = \<lparr> result = None, error = Some msg \<rparr>) \<and>
   (computeScenarioResult a b s = Inl NonError \<longrightarrow>
      computeSafe computeScenarioResult a b s = \<lparr> result = None, error = Some ''Unknown error'' \<rparr>) \<and>
   ((result (computeSafe computeScenarioResult a b s) = None)
      \<noteq> (error (computeSafe computeScenarioResult a b s) = None))"
  by (auto simp: computeSafe_def split: sum.splits thrown.splits)

text \<open>C9 at the stand-in evaluator: an accepted and a rejected area.\<close>
theorem computeSafe_outcomes_witness:
  "computeSafe demoEvaluate 15000 () [] = \<lparr> result = Some demoA, error = None \<rparr> \<and>
   computeSafe demoEvaluate 0 () [] = \<lparr> result = None, error = Some ''areaSqft must be positive'' \<rparr>"
  using computeSafe_outcomes [of demoEvaluate 15000 "()" "[]" demoA]
        computeSafe_outcomes [of demoEvaluate 0 "()" "[]" _ "''areaSqft must be positive''"]
  by (simp add: demoEvaluate_def)

text \<open>
  Claim C8. When scenario B lacks a category of scenario A, the comparison throws an
  \<^verbatim>\<open>Error\<close> whose message names a category of A that B lacks, and yields no report.
\<close>
theorem delta_missing_category:
  assumes "compareMode st"
    and "\<exists>a\<in>set (categories A). sc_categoryId a \<notin> sc_categoryId ` set (categories B)"
  shows "\<exists>c. c \<in> sc_categoryId ` set (categories A) \<and> c \<notin> sc_categoryId ` set (categories B) \<and>
           delta cats st (Some A) (Some B) = Inl (Error (''Missing category in Scenario B: '' @ c))"
proof -
  from baseRows_missing[OF assms(2)] obtain c where
    "c \<in> sc_categoryId ` set (categories A)" "c \<notin> sc_categoryId ` set (categories B)"
    "baseRows st (if totalCost A > 0 then totalCost A else 1) (categories A) (categories B)
       = Inl (Error (''Missing category in Scenario B: '' @ c))"
    by blast
  with assms(1) show ?thesis
    by (auto simp: delta_def deltaBody_def Let_def)
qed

text \<open>C8 at the example with category \<open>R\<close> removed from scenario B.\<close>
theorem delta_missing_category_witness:
  "delta demoCats demoSt (Some demoA) (Some demoBnoR) = Inl (Error ''Missing category in Scenario B: R'')"
proof -
  have "\<exists>c. c \<in> sc_categoryId ` set (categories demoA) \<and>
            c \<notin> sc_categoryId ` set (categories demoBnoR) \<and>
            delta demoCats demoSt (Some demoA) (Some demoBnoR)
              = Inl (Error (''Missing category in Scenario B: '' @ c))"
    by (rule delta_missing_category) (simp_all add: demoSt_def demoA_def demoB_def demoBnoR_def)
  then obtain c where c: "c \<in> sc_categoryId ` set (categories demoA)"
      "c \<notin> sc_categoryId ` set (categories demoBnoR)"
      "delta demoCats demoSt (Some demoA) (Some demoBnoR)
              = Inl (Error (''Missing category in Scenario B: '' @ c))" by blast
  from c(1,2) have "c = ''R''"
    by (auto simp: demoA_def demoB_def demoBnoR_def)
  with c(3) show ?thesis by simp
qed

text \<open>
  Claim C2, as the code has it. The impact fraction of every row is the absolute delta
  divided by the baseline total when that total is positive and by 1 otherwise; this is
  the division by \<open>max total 1\<close> whenever the total is at least 1 or at most 0.
\<close>
theorem impact_fraction_divisor:
  assumes "compareMode st" and "delta cats st (Some A) (Some B) = Inr (Some rep)"
    and "r \<in> set (rows rep)"
  shows "absFracOfATotal r = \<bar>deltaCost r\<bar> / (if totalCost A > 0 then totalCost A else 1) \<and>
         (totalCost A \<ge> 1 \<or> totalCost A \<le> 0 \<longrightarrow>
            absFracOfATotal r = \<bar>deltaCost r\<bar> / max (totalCost A) 1)"
proof -
  from report_row[OF assms] obtain a b tops where
    "r = markRow tops (baseRow st (if totalCost A > 0 then totalCost A else 1) a b)" by blast
  then show ?thesis by (auto simp: max_def)
qed

text \<open>C2 at the example: the divisor of row \<open>P\<close> is the baseline total 10000.\<close>
theorem impact_fraction_divisor_witness:
  "absFracOfATotal rowP = \<bar>deltaCost rowP\<bar> / 10000 \<and> totalCost demoA = 10000"
proof -
  have cm: "compareMode demoSt" by (simp add: demoSt_def)
  have mem: "rowP \<in> set (rows demoReport)" by (simp add: demoReport_def)
  from impact_fraction_divisor [OF cm demo_delta mem] show ?thesis
    by (simp add: demoA_def)
qed

text \<open>C2 as stated fails for a baseline total of one half: the delta of one half has
  impact fraction 1, not one half.\<close>
theorem impact_fraction_max_counterexample:
  "delta tinyCats demoSt (Some tinyA) (Some tinyB) = Inr (Some tinyReport) \<and>
   totalCost tinyA < 1 \<and>
   absFracOfATotal (hd (rows tinyReport))
     \<noteq> \<bar>deltaCost (hd (rows tinyReport))\<bar> / max (totalCost tinyA) 1"
  by (simp add: tiny_delta) (simp add: tinyReport_def tinyA_def)

text \<open>
  Claim C3. A row of the report that is not a top driver has heat high exactly when its
  impact fraction reaches the high threshold, medium exactly when it reaches the medium
  threshold and stays below the high one, and low exactly when neither holds.
\<close>
theorem heat_thresholds_non_driver:
  assumes "compareMode st" and "delta cats st (Some A) (Some B) = Inr (Some rep)"
    and "r \<in> set (rows rep)" and "\<not> isTopDriver r"
  shows "(heat r = high \<longleftrightarrow> absFracOfATotal r \<ge> deltaHighThr st) \<and>
         (heat r = medium \<longleftrightarrow>
            deltaMediumThr st \<le> absFracOfATotal r \<and> absFracOfATotal r < deltaHighThr st) \<and>
         (heat r = low \<longleftrightarrow>
            \<not> absFracOfATotal r \<ge> deltaHighThr st \<and>
            \<not> (deltaMediumThr st \<le> absFracOfATotal r \<and> absFracOfATotal r < deltaHighThr st))"
proof -
  from report_row[OF assms(1-3)] obtain a b tops where
    r: "r = markRow tops (baseRow st (if totalCost A > 0 then totalCost A else 1) a b)" by blast
  with assms(4) have "heat r = heatOf st (absFracOfATotal r)" by simp
  then show ?thesis by (auto simp: heatOf_def)
qed

text \<open>C3 at the example: row \<open>T\<close> is no driver, lies below the medium threshold and is
  low.\<close>
theorem heat_thresholds_non_driver_witness:
  "\<not> isTopDriver rowT \<and> heat rowT = low \<and> absFracOfATotal rowT < deltaMediumThr demoSt"
proof -
  have cm: "compareMode demoSt" by (simp add: demoSt_def)
  have mem: "rowT \<in> set (rows demoReport)" by (simp add: demoReport_def)
  have nd: "\<not> isTopDriver rowT" by (simp add: rowT_def)
  from heat_thresholds_non_driver [OF cm demo_delta mem nd] nd show ?thesis
    by (simp add: demoSt_def rowT_def)
qed



subsection \<open>Antisymmetry\<close>

lemma find_distinct_ids:
  assumes "distinct (map f xs)" "x \<in> set xs"
  shows "find (\<lambda>y. f y = f x) xs = Some x"
  using assms by (induction xs) (auto simp: image_iff)

lemma find_Some_mem: "find P xs = Some x \<Longrightarrow> x \<in> set xs \<and> P x"
  by (induction xs) (auto split: if_splits)

text \<open>
  Claim C7. For two scenario results whose category ids are distinct, compared in both
  directions, the total delta of one report is the negation of the other's, and any two
  rows of the same category, one from each report, have negated cost and percentage deltas.
\<close>
theorem delta_antisymmetric:
  assumes "compareMode st" and "compareMode st'"
    and "distinct (map sc_categoryId (categories A))"
    and "distinct (map sc_categoryId (categories B))"
    and "delta cats st (Some A) (Some B) = Inr (Some rep)"
    and "delta cats st' (Some B) (Some A) = Inr (Some rep')"
  shows "totalDelta rep = - totalDelta rep' \<and>
         (\<forall>r\<in>set (rows rep). \<forall>r'\<in>set (rows rep'). categoryId r = categoryId r' \<longrightarrow>
            deltaCost r = - deltaCost r' \<and> deltaPct r = - deltaPct r')"
proof -
  have tot: "totalDelta rep = - totalDelta rep'"
    using delta_Some[OF assms(1,5)] delta_Some[OF assms(2,6)] by auto
  have "deltaCost r = - deltaCost r' \<and> deltaPct r = - deltaPct r'"
    if r: "r \<in> set (rows rep)" and r': "r' \<in> set (rows rep')" and eq: "categoryId r = categoryId r'"
    for r r'
  proof -
    from report_row[OF assms(1,5) r] obtain a b tops where
      a: "a \<in> set (categories A)"
      and b: "find (\<lambda>x. sc_categoryId x = sc_categoryId a) (categories B) = Some b"
      and rr: "r = markRow tops (baseRow st (if totalCost A > 0 then totalCost A else 1) a b)"
      by blast
    from report_row[OF assms(2,6) r'] obtain b' a' tops' where
      b': "b' \<in> set (categories B)"
      and a': "find (\<lambda>x. sc_categoryId x = sc_categoryId b') (categories A) = Some a'"
      and rr': "r' = markRow tops' (baseRow st' (if totalCost B > 0 then totalCost B else 1) b' a')"
      by blast
    from eq rr rr' have ids: "sc_categoryId a = sc_categoryId b'" by simp
    from find_Some_mem[OF b] have "b \<in> set (categories B)" "sc_categoryId b = sc_categoryId a" by auto
    with find_distinct_ids[OF assms(4) b'] b ids have "b = b'" by simp
    from find_distinct_ids[OF assms(3) a] a' ids have "a = a'" by simp
    from \<open>a = a'\<close> \<open>b = b'\<close> rr rr' show ?thesis by simp
  qed
  with tot show ?thesis by blast
qed

text \<open>C7 at the example, for the total and the rows of category \<open>Q\<close>.\<close>
theorem delta_antisymmetric_witness:
  "totalDelta demoReport = - totalDelta demoReportBA \<and>
   categoryId rowQ = categoryId (rows demoReportBA ! 1) \<and>
   deltaCost rowQ = - deltaCost (rows demoReportBA ! 1) \<and>
   deltaPct rowQ = - deltaPct (rows demoReportBA ! 1)"
proof -
  have cm: "compareMode demoSt" by (simp add: demoSt_def)
  have dA: "distinct (map sc_categoryId (categories demoA))" by (simp add: demoA_def)
  have dB: "distinct (map sc_categoryId (categories demoB))" by (simp add: demoB_def)
  note w = delta_antisymmetric [OF cm cm dA dB demo_delta demo_delta_BA]
  have memQ: "rowQ \<in> set (rows demoReport)" by (simp add: demoReport_def)
  have memQ': "rows demoReportBA ! 1 \<in> set (rows demoReportBA)" by (simp add: demoReportBA_def)
  have ids: "categoryId rowQ = categoryId (rows demoReportBA ! 1)"
    by (simp add: rowQ_def demoReportBA_def)
  from w[THEN conjunct2, rule_format, OF memQ memQ' ids] w[THEN conjunct1] ids
  show ?thesis by simp
qed

subsection \<open>The summary lists\<close>







lemma mset_sortRows: "mset (sortRows cats mode rs) = mset rs"
  by (simp add: sortRows_def mset_js_sort)

lemma markRows_ids: "map categoryId (markRows base) = map categoryId base"
  by (simp add: markRows_def)

lemma report_rows_unfiltered:
  assumes "compareMode st" "delta cats st (Some A) (Some B) = Inr (Some rep)" "\<not> deltaDriversOnly st"
  shows "mset (map categoryId (rows rep)) = mset (map sc_categoryId (categories A))"
proof -
  from delta_Some[OF assms(1,2)] obtain base where
    base: "baseRows st (if totalCost A > 0 then totalCost A else 1) (categories A) (categories B) = Inr base"
    and rws: "rows rep = filterRows (deltaDriversOnly st) (sortRows cats (deltaSort st) (markRows base))"
    by blast
  from rws assms(3) have "mset (rows rep) = mset (markRows base)"
    by (simp add: filterRows_def mset_sortRows)
  then have "mset (map categoryId (rows rep)) = mset (map categoryId (markRows base))"
    by (metis mset_map)
  then show ?thesis by (simp add: markRows_ids baseRows_ids[OF base])
qed





subsection \<open>Stable sorting and catalog positions\<close>

lemma indexOf_less: "k \<in> set ks \<Longrightarrow> indexOf ks k < length ks \<and> ks ! indexOf ks k = k"
  by (induction ks) auto

lemma indexOf_nth: "distinct ks \<Longrightarrow> i < length ks \<Longrightarrow> indexOf ks (ks ! i) = i"
proof (induction ks arbitrary: i)
  case Nil
  then show ?case by simp
next
  case (Cons x ks)
  then show ?case by (cases i) auto
qed

lemma sorted_wrt_indexOf:
  assumes "distinct (map f xs)"
  shows "sorted_wrt (\<lambda>a b. indexOf (map f xs) (f a) < indexOf (map f xs) (f b)) xs"
proof -
  have "indexOf (map f xs) (f (xs ! i)) = i" if "i < length xs" for i
    using indexOf_nth[OF assms, of i] that by simp
  then show ?thesis by (simp add: sorted_wrt_iff_nth_less)
qed

lemma insort_key_lex:
  fixes f :: "'a \<Rightarrow> real" and g :: "'a \<Rightarrow> nat"
  assumes "sorted_wrt (\<lambda>a b. f a < f b \<or> (f a = f b \<and> g a < g b)) ys"
    and "\<forall>y\<in>set ys. g x < g y"
  shows "sorted_wrt (\<lambda>a b. f a < f b \<or> (f a = f b \<and> g a < g b)) (insort_key f x ys)"
  using assms
proof (induction ys)
  case Nil
  then show ?case by simp
next
  case (Cons y ys)
  show ?case
  proof (cases "f x \<le> f y")
    case True
    have "f x < f z \<or> (f x = f z \<and> g x < g z)" if "z \<in> set (y # ys)" for z
    proof -
      from Cons.prems(1) that have "f y \<le> f z" by auto
      with True have "f x \<le> f z" by simp
      moreover from Cons.prems(2) that have "g x < g z" by auto
      ultimately show ?thesis by auto
    qed
    with True Cons.prems(1) show ?thesis by simp
  next
    case False
    from Cons.prems have "sorted_wrt (\<lambda>a b. f a < f b \<or> (f a = f b \<and> g a < g b)) (insort_key f x ys)"
      by (intro Cons.IH) simp_all
    with False Cons.prems(1) show ?thesis by (auto simp: set_insort_key)
  qed
qed

lemma sort_key_stable_lex:
  fixes f :: "'a \<Rightarrow> real" and g :: "'a \<Rightarrow> nat"
  assumes "sorted_wrt (\<lambda>a b. g a < g b) xs"
  shows "sorted_wrt (\<lambda>a b. f a < f b \<or> (f a = f b \<and> g a < g b)) (sort_key f xs)"
  using assms
proof (induction xs)
  case Nil
  then show ?case by simp
next
  case (Cons x xs)
  then have "sorted_wrt (\<lambda>a b. f a < f b \<or> (f a = f b \<and> g a < g b)) (sort_key f xs)"
    and "\<forall>y\<in>set (sort_key f xs). g x < g y" by simp_all
  then show ?case by (simp add: insort_key_lex)
qed

lemma take_sorted_wrt_count:
  assumes "sorted_wrt R ys" and "\<And>a b. R a b \<Longrightarrow> \<not> R b a" and "x \<in> set ys"
  shows "x \<in> set (take n ys) \<longleftrightarrow> length (filter (\<lambda>y. R y x) ys) < n"
  using assms(1,3)
proof (induction ys arbitrary: n)
  case Nil
  then show ?case by simp
next
  case (Cons y ys)
  have irr: "\<not> R x x" using assms(2) by blast
  show ?case
  proof (cases "x = y")
    case True
    from Cons.prems(1) True have "\<forall>z\<in>set ys. R x z" by simp
    then have "\<forall>z\<in>set ys. \<not> R z x" using assms(2) by blast
    then have "filter (\<lambda>y. R y x) ys = []" by (simp add: filter_empty_conv)
    with True irr show ?thesis by (cases n) simp_all
  next
    case False
    with Cons.prems have xin: "x \<in> set ys" and "R y x" and "sorted_wrt R ys" by auto
    from Cons.IH[OF this(3) xin] \<open>R y x\<close> False show ?thesis
      by (cases n) simp_all
  qed
qed

lemma length_filter_sort_key: "length (filter P (sort_key f xs)) = length (filter P xs)"
  by (metis mset_sort mset_filter size_mset)

lemma order_catalog:
  assumes "distinct (map cat_id cats)" "k \<in> set (map cat_id cats)"
  shows "order cats k = Some (catalogPos cats k)"
proof -
  let ?ks = "map cat_id cats"
  let ?zs = "zip ?ks [0..<length cats]"
  have d: "distinct (map fst (rev ?zs))" using assms(1) by (simp add: rev_map[symmetric])
  from indexOf_less[OF assms(2)] have "(k, indexOf ?ks k) \<in> set ?zs"
    by (auto simp: in_set_zip intro!: exI[of _ "indexOf ?ks k"])
  then have "(k, indexOf ?ks k) \<in> set (rev ?zs)" by simp
  with d show ?thesis unfolding order_def catalogPos_def
    by (simp only: map_of_eq_Some_iff)
qed

lemma orderOr999_catalog:
  "distinct (map cat_id cats) \<Longrightarrow> k \<in> set (map cat_id cats) \<Longrightarrow>
     orderOr999 cats k = real (catalogPos cats k)"
  by (simp add: orderOr999_def order_catalog)

subsection \<open>The order of the rows\<close>

lemma sortRows_impact: "sortRows cats impact rs = sort_key (\<lambda>r. - \<bar>deltaCost r\<bar>) rs"
  unfolding sortRows_def by (simp, subst js_sort_by_key[where k = "\<lambda>r. - \<bar>deltaCost r\<bar>"]) simp_all

lemma sortRows_category:
  "mode \<noteq> impact \<Longrightarrow> sortRows cats mode rs = sort_key (\<lambda>r. orderOr999 cats (categoryId r)) rs"
  unfolding sortRows_def
  by (simp, subst js_sort_by_key[where k = "\<lambda>r. orderOr999 cats (categoryId r)"]) simp_all

lemma topSet_sort_key:
  "topSet base =
     categoryId ` set (take 3 (sort_key (\<lambda>r. - \<bar>deltaCost r\<bar>) (filter (\<lambda>r. \<bar>deltaCost r\<bar> > 0) base)))"
  unfolding topSet_def Let_def
  by (subst js_sort_by_key[where k = "\<lambda>r. - \<bar>deltaCost r\<bar>"]) simp_all

lemma heatOf_flag: "heatOf (st\<lparr>deltaDriversOnly := d\<rparr>) x = heatOf st x"
  by (auto simp: heatOf_def)

lemma baseRow_flag: "baseRow (st\<lparr>deltaDriversOnly := d\<rparr>) t a b = baseRow st t a b"
  by (simp add: baseRow_def heatOf_flag)

lemma baseRows_flag: "baseRows (st\<lparr>deltaDriversOnly := d\<rparr>) t as bs = baseRows st t as bs"
  by (induction as) (simp_all add: baseRow_flag split: option.splits sum.splits)

lemma sorted_wrt_filterRows: "sorted_wrt R rs \<Longrightarrow> sorted_wrt R (filterRows d rs)"
  by (simp add: filterRows_def sorted_wrt_filter)

lemma marked_in_catalog_order:
  assumes "followsCatalog cats A" and "baseRows st t (categories A) bs = Inr base"
  shows "map categoryId (markRows base) = map cat_id cats"
    and "sorted_wrt (\<lambda>a b. catalogPos cats (categoryId a) < catalogPos cats (categoryId b)) (markRows base)"
    and "map categoryId base = map cat_id cats"
    and "sorted_wrt (\<lambda>a b. catalogPos cats (categoryId a) < catalogPos cats (categoryId b)) base"
proof -
  from assms show ids: "map categoryId base = map cat_id cats"
    by (simp add: baseRows_ids followsCatalog_def)
  then show ids': "map categoryId (markRows base) = map cat_id cats" by (simp add: markRows_ids)
  from assms(1) have d: "distinct (map cat_id cats)" by (simp add: followsCatalog_def)
  from sorted_wrt_indexOf[of categoryId "markRows base"] d ids'
  show "sorted_wrt (\<lambda>a b. catalogPos cats (categoryId a) < catalogPos cats (categoryId b)) (markRows base)"
    by (simp add: catalogPos_def)
  from sorted_wrt_indexOf[of categoryId base] d ids
  show "sorted_wrt (\<lambda>a b. catalogPos cats (categoryId a) < catalogPos cats (categoryId b)) base"
    by (simp add: catalogPos_def)
qed

lemma heatOf_sort: "heatOf (st\<lparr>deltaSort := m\<rparr>) x = heatOf st x"
  by (auto simp: heatOf_def)

lemma baseRow_sort: "baseRow (st\<lparr>deltaSort := m\<rparr>) t a b = baseRow st t a b"
  by (simp add: baseRow_def heatOf_sort)

lemma baseRows_sort: "baseRows (st\<lparr>deltaSort := m\<rparr>) t as bs = baseRows st t as bs"
  by (induction as) (simp_all add: baseRow_sort split: option.splits sum.splits)

lemma mset_filterRows_sortRows:
  "mset (filterRows d (sortRows cats m rs)) = mset (filterRows d rs)"
  by (simp add: filterRows_def mset_sortRows)

lemma catalog_order_unique:
  assumes d: "distinct (map cat_id cats)"
    and m: "mset ks = mset (map cat_id cats)"
    and s: "sorted (map (catalogPos cats) ks)"
  shows "ks = map cat_id cats"
proof -
  let ?K = "map cat_id cats"
  have pos: "map (catalogPos cats) ?K = [0..<length ?K]"
    using indexOf_nth[OF d] by (intro nth_equalityI) (simp_all add: catalogPos_def)
  have inj: "inj_on (catalogPos cats) (set ?K)"
  proof (rule inj_onI)
    fix x y assume "x \<in> set ?K" "y \<in> set ?K" "catalogPos cats x = catalogPos cats y"
    with indexOf_less[of x ?K] indexOf_less[of y ?K] show "x = y"
      by (metis catalogPos_def)
  qed
  have "sorted (map (catalogPos cats) ?K)" unfolding pos by simp
  then have "sort_key (catalogPos cats) ?K = ?K" by (rule sort_key_id_if_sorted)
  moreover from m[symmetric] inj s have "sort_key (catalogPos cats) ?K = ks"
    by (rule sort_key_inj_key_eq)
  ultimately show ?thesis by simp
qed

text \<open>
  Claim C6. Under the impact sort the rows of the report are non-increasing in absolute
  delta; rows of equal absolute delta keep the order of scenario A's categories, which is
  the catalog order when A follows the catalog. Under the category sort the rows are
  sorted by the index line 426 gives their category, hence by catalog position when the
  catalog ids are distinct and A's ids lie in the catalog; and when A has one entry per
  catalog category, in whatever order, and the drivers-only filter is off, the rows stand
  in the catalog order exactly. The sort mode only permutes the rows: every sort mode
  yields the same rows, one per category of A when the filter is off.
\<close>
theorem rows_ordering:
  assumes "compareMode st" and "delta cats st (Some A) (Some B) = Inr (Some rep)"
  shows "(deltaSort st = impact \<longrightarrow>
            sorted_wrt (\<lambda>r s. \<bar>deltaCost r\<bar> \<ge> \<bar>deltaCost s\<bar>) (rows rep)) \<and>
         (deltaSort st = impact \<and> distinct (map sc_categoryId (categories A)) \<longrightarrow>
            sorted_wrt (\<lambda>r s. \<bar>deltaCost r\<bar> > \<bar>deltaCost s\<bar> \<or>
                          (\<bar>deltaCost r\<bar> = \<bar>deltaCost s\<bar> \<and>
                           indexOf (map sc_categoryId (categories A)) (categoryId r)
                             < indexOf (map sc_categoryId (categories A)) (categoryId s)))
                       (rows rep)) \<and>
         (deltaSort st = impact \<and> followsCatalog cats A \<longrightarrow>
            sorted_wrt (\<lambda>r s. \<bar>deltaCost r\<bar> > \<bar>deltaCost s\<bar> \<or>
                          (\<bar>deltaCost r\<bar> = \<bar>deltaCost s\<bar> \<and>
                           catalogPos cats (categoryId r) < catalogPos cats (categoryId s)))
                       (rows rep)) \<and>
         (deltaSort st = category \<longrightarrow>
            sorted (map (\<lambda>r. orderOr999 cats (categoryId r)) (rows rep))) \<and>
         (deltaSort st = category \<and> distinct (map cat_id cats) \<and>
          set (map sc_categoryId (categories A)) \<subseteq> set (map cat_id cats) \<longrightarrow>
            sorted (map (\<lambda>r. catalogPos cats (categoryId r)) (rows rep))) \<and>
         (deltaSort st = category \<and> distinct (map cat_id cats) \<and>
          mset (map sc_categoryId (categories A)) = mset (map cat_id cats) \<and>
          \<not> deltaDriversOnly st \<longrightarrow>
            map categoryId (rows rep) = map cat_id cats) \<and>
         (\<forall>m rep'. delta cats (st\<lparr>deltaSort := m\<rparr>) (Some A) (Some B) = Inr (Some rep') \<longrightarrow>
            mset (rows rep') = mset (rows rep)) \<and>
         (\<not> deltaDriversOnly st \<longrightarrow>
            mset (map categoryId (rows rep)) = mset (map sc_categoryId (categories A)))"
proof -
  let ?t = "if totalCost A > 0 then totalCost A else 1"
  let ?abs = "\<lambda>r::DeltaRow. \<bar>deltaCost r\<bar>"
  let ?key = "\<lambda>r. orderOr999 cats (categoryId r)"
  let ?pos = "\<lambda>r. catalogPos cats (categoryId r)"
  let ?posA = "\<lambda>r. indexOf (map sc_categoryId (categories A)) (categoryId r)"
  from delta_Some[OF assms] obtain base where
    base: "baseRows st ?t (categories A) (categories B) = Inr base"
    and rws: "rows rep = filterRows (deltaDriversOnly st) (sortRows cats (deltaSort st) (markRows base))"
    by blast
  have ids: "map categoryId (markRows base) = map sc_categoryId (categories A)"
    by (simp add: markRows_ids baseRows_ids[OF base])
  have sub: "set (rows rep) \<subseteq> set (markRows base)"
    unfolding rws
    using set_filterRows[of "deltaDriversOnly st" "sortRows cats (deltaSort st) (markRows base)"]
    by (simp add: set_sortRows)
  have 1: "sorted_wrt (\<lambda>r s. ?abs r \<ge> ?abs s) (rows rep)" if "deltaSort st = impact"
  proof -
    have "sorted (map (\<lambda>r. - ?abs r) (sortRows cats impact (markRows base)))"
      by (simp only: sortRows_impact sorted_sort_key)
    then have "sorted_wrt (\<lambda>r s. ?abs r \<ge> ?abs s) (sortRows cats impact (markRows base))"
      by (simp add: sorted_map)
    with that rws show ?thesis by (simp add: sorted_wrt_filterRows)
  qed
  have 2: "sorted_wrt (\<lambda>r s. ?abs r > ?abs s \<or> (?abs r = ?abs s \<and> ?posA r < ?posA s)) (rows rep)"
    if "deltaSort st = impact" "distinct (map sc_categoryId (categories A))"
  proof -
    from sorted_wrt_indexOf[of categoryId "markRows base"] that(2)
    have "sorted_wrt (\<lambda>a b. ?posA a < ?posA b) (markRows base)" by (simp add: ids)
    from sort_key_stable_lex[OF this, of "\<lambda>r. - ?abs r"]
    have "sorted_wrt (\<lambda>r s. ?abs r > ?abs s \<or> (?abs r = ?abs s \<and> ?posA r < ?posA s))
            (sortRows cats impact (markRows base))"
      by (simp add: sortRows_impact)
    with that(1) rws show ?thesis by (simp add: sorted_wrt_filterRows)
  qed
  have 3: "sorted_wrt (\<lambda>r s. ?abs r > ?abs s \<or> (?abs r = ?abs s \<and> ?pos r < ?pos s)) (rows rep)"
    if "deltaSort st = impact" "followsCatalog cats A"
  proof -
    from sort_key_stable_lex[OF marked_in_catalog_order(2)[OF that(2) base], of "\<lambda>r. - ?abs r"]
    have "sorted_wrt (\<lambda>r s. ?abs r > ?abs s \<or> (?abs r = ?abs s \<and> ?pos r < ?pos s))
            (sortRows cats impact (markRows base))"
      by (simp add: sortRows_impact)
    with that(1) rws show ?thesis by (simp add: sorted_wrt_filterRows)
  qed
  have 4: "sorted (map ?key (rows rep))" if "deltaSort st = category"
  proof -
    have "sortRows cats category (markRows base) = sort_key ?key (markRows base)"
      by (rule sortRows_category) simp
    then have "sorted (map ?key (sortRows cats category (markRows base)))"
      by (simp only: sorted_sort_key)
    then have "sorted (map ?key (filterRows (deltaDriversOnly st)
                 (sortRows cats category (markRows base))))"
      by (simp add: filterRows_def sorted_filter)
    with that rws show ?thesis by simp
  qed
  have 5: "sorted (map ?pos (rows rep))"
    if "deltaSort st = category" "distinct (map cat_id cats)"
       "set (map sc_categoryId (categories A)) \<subseteq> set (map cat_id cats)"
  proof -
    have key: "?key r = real (?pos r)" if "r \<in> set (rows rep)" for r
    proof -
      from that sub have "categoryId r \<in> set (map categoryId (markRows base))" by auto
      with ids \<open>set (map sc_categoryId (categories A)) \<subseteq> set (map cat_id cats)\<close>
      have "categoryId r \<in> set (map cat_id cats)" by auto
      then show ?thesis by (rule orderOr999_catalog[OF \<open>distinct (map cat_id cats)\<close>])
    qed
    from 4[OF that(1)] have "sorted_wrt (\<lambda>r s. ?key r \<le> ?key s) (rows rep)"
      by (simp add: sorted_map)
    then have "sorted_wrt (\<lambda>r s. ?pos r \<le> ?pos s) (rows rep)"
      by (rule sorted_wrt_mono_rel[rotated]) (simp add: key)
    then show ?thesis by (simp add: sorted_map)
  qed
  have 8: "mset (map categoryId (rows rep)) = mset (map sc_categoryId (categories A))"
    if "\<not> deltaDriversOnly st"
    by (rule report_rows_unfiltered[OF assms that])
  have 6: "map categoryId (rows rep) = map cat_id cats"
    if "deltaSort st = category" "distinct (map cat_id cats)"
       "mset (map sc_categoryId (categories A)) = mset (map cat_id cats)" "\<not> deltaDriversOnly st"
  proof -
    from that(3) have "set (map sc_categoryId (categories A)) = set (map cat_id cats)"
      by (metis set_mset_mset)
    then have "set (map sc_categoryId (categories A)) \<subseteq> set (map cat_id cats)" by simp
    from 5[OF that(1,2) this] have "sorted (map (catalogPos cats) (map categoryId (rows rep)))"
      by (simp add: comp_def)
    moreover from 8[OF that(4)] that(3)
    have "mset (map categoryId (rows rep)) = mset (map cat_id cats)" by simp
    ultimately show ?thesis using that(2) by (intro catalog_order_unique)
  qed
  have 7: "mset (rows rep') = mset (rows rep)"
    if "delta cats (st\<lparr>deltaSort := m\<rparr>) (Some A) (Some B) = Inr (Some rep')" for m rep'
  proof -
    from assms(1) have cm: "compareMode (st\<lparr>deltaSort := m\<rparr>)" by simp
    from delta_Some[OF cm that] base
    have "rows rep' = filterRows (deltaDriversOnly st) (sortRows cats m (markRows base))"
      by (auto simp: baseRows_sort)
    with rws show ?thesis by (simp add: mset_filterRows_sortRows)
  qed
  show ?thesis
    using 1 2 3 4 5 6 7 8 by (intro conjI impI allI) blast+
qed

text \<open>C6 at the examples: the category sort puts the rows of the reversed scenario A
  into catalog order; the impact sort of \<open>demoA\<close> breaks the tie of \<open>Q\<close>, \<open>R\<close> and \<open>T\<close> by
  catalog position; both sorts hold the same rows.\<close>
theorem rows_ordering_witness:
  "map sc_categoryId (categories demoArev) = [''T'', ''S'', ''R'', ''Q'', ''P''] \<and>
   map categoryId (rows demoReportCategoryRev) = [''P'', ''Q'', ''R'', ''S'', ''T''] \<and>
   map deltaCost (rows demoReportCategoryRev) = [400, - 100, 100, 0, - 100] \<and>
   map categoryId (rows demoReport) = [''P'', ''Q'', ''R'', ''T'', ''S''] \<and>
   map deltaCost (rows demoReport) = [400, - 100, 100, - 100, 0] \<and>
   sorted_wrt (\<lambda>r s. \<bar>deltaCost r\<bar> > \<bar>deltaCost s\<bar> \<or>
                 (\<bar>deltaCost r\<bar> = \<bar>deltaCost s\<bar> \<and>
                  catalogPos demoCats (categoryId r) < catalogPos demoCats (categoryId s)))
              (rows demoReport) \<and>
   mset (rows demoReportCategory) = mset (rows demoReport)"
proof -
  let ?stc = "demoSt\<lparr>deltaSort := category\<rparr>"
  have cm: "compareMode demoSt" and cm': "compareMode ?stc" by (simp_all add: demoSt_def)
  note wi = rows_ordering [OF cm demo_delta]
  note wc = rows_ordering [OF cm' demo_delta_category_rev]
  have fc: "followsCatalog demoCats demoA"
    by (simp add: followsCatalog_def demoCats_def demoA_def)
  have imp: "deltaSort demoSt = impact" by (simp add: demoSt_def)
  have ct: "deltaSort ?stc = category" "\<not> deltaDriversOnly ?stc" by (simp_all add: demoSt_def)
  have dc: "distinct (map cat_id demoCats)" by (simp add: demoCats_def)
  have rev: "map sc_categoryId (categories demoArev) = [''T'', ''S'', ''R'', ''Q'', ''P'']"
    by (simp add: demoArev_def demoA_def)
  have ms: "mset (map sc_categoryId (categories demoArev)) = mset (map cat_id demoCats)"
    unfolding rev by (simp add: demoCats_def)
  from wc[THEN conjunct2, THEN conjunct2, THEN conjunct2, THEN conjunct2, THEN conjunct2,
          THEN conjunct1] ct dc ms
  have "map categoryId (rows demoReportCategoryRev) = map cat_id demoCats" by blast
  then have 1: "map categoryId (rows demoReportCategoryRev) = [''P'', ''Q'', ''R'', ''S'', ''T'']"
    by (simp add: demoCats_def)
  from wi[THEN conjunct2, THEN conjunct2, THEN conjunct1] imp fc
  have 2: "sorted_wrt (\<lambda>r s. \<bar>deltaCost r\<bar> > \<bar>deltaCost s\<bar> \<or>
                 (\<bar>deltaCost r\<bar> = \<bar>deltaCost s\<bar> \<and>
                  catalogPos demoCats (categoryId r) < catalogPos demoCats (categoryId s)))
              (rows demoReport)" by blast
  from wi[THEN conjunct2, THEN conjunct2, THEN conjunct2, THEN conjunct2, THEN conjunct2,
          THEN conjunct2, THEN conjunct1, rule_format, OF demo_delta_category]
  have 3: "mset (rows demoReportCategory) = mset (rows demoReport)" .
  have 4: "map deltaCost (rows demoReportCategoryRev) = [400, - 100, 100, 0, - 100]"
    "map categoryId (rows demoReport) = [''P'', ''Q'', ''R'', ''T'', ''S'']"
    "map deltaCost (rows demoReport) = [400, - 100, 100, - 100, 0]"
    by (simp_all add: demoReportCategoryRev_def demoReport_def demo_defs)
  from rev 1 2 3 4 show ?thesis by (intro conjI)
qed

subsection \<open>Top drivers\<close>

lemma outranks_markRow [simp]:
  "outranks cats (markRow tops r) s = outranks cats r s"
  "outranks cats r (markRow tops s) = outranks cats r s"
  by (simp_all add: outranks_def)

lemma driver_iff_outranked:
  assumes ids: "map categoryId base = map cat_id cats" and d: "distinct (map cat_id cats)"
    and b: "b \<in> set base"
  shows "categoryId b \<in> topSet base \<longleftrightarrow>
           deltaCost b \<noteq> 0 \<and> length (filter (outranks cats b) base) < 3"
proof -
  let ?pos = "\<lambda>r. catalogPos cats (categoryId r)"
  let ?k = "\<lambda>r::DeltaRow. - \<bar>deltaCost r\<bar>"
  let ?L = "\<lambda>a b. ?k a < ?k b \<or> (?k a = ?k b \<and> ?pos a < ?pos b)"
  let ?elig = "filter (\<lambda>r. \<bar>deltaCost r\<bar> > 0) base"
  let ?byAbs = "sort_key ?k ?elig"
  have inj: "inj_on categoryId (set base)"
    using d ids by (metis distinct_map)
  have sub: "set (take 3 ?byAbs) \<subseteq> set base"
    using set_take_subset[of 3 ?byAbs] by auto
  have mem: "categoryId b \<in> topSet base \<longleftrightarrow> b \<in> set (take 3 ?byAbs)"
  proof
    assume "categoryId b \<in> topSet base"
    then obtain x where x: "x \<in> set (take 3 ?byAbs)" "categoryId x = categoryId b"
      by (auto simp: topSet_sort_key)
    with sub have "x \<in> set base" by blast
    with inj b x(2) have "x = b" by (auto dest: inj_onD)
    with x(1) show "b \<in> set (take 3 ?byAbs)" by simp
  next
    assume "b \<in> set (take 3 ?byAbs)"
    then show "categoryId b \<in> topSet base" by (simp add: topSet_sort_key)
  qed
  show ?thesis
  proof (cases "deltaCost b = 0")
    case True
    then have "b \<notin> set ?byAbs" by simp
    then have "b \<notin> set (take 3 ?byAbs)" using set_take_subset[of 3 ?byAbs] by blast
    with True mem show ?thesis by simp
  next
    case False
    with b have bin: "b \<in> set ?byAbs" by simp
    have "sorted_wrt (\<lambda>a b. ?pos a < ?pos b) base"
      using sorted_wrt_indexOf[of categoryId base] d ids by (simp add: catalogPos_def)
    then have "sorted_wrt (\<lambda>a b. ?pos a < ?pos b) ?elig" by (rule sorted_wrt_filter)
    then have srt: "sorted_wrt ?L ?byAbs" by (rule sort_key_stable_lex)
    have asym: "\<And>x y. ?L x y \<Longrightarrow> \<not> ?L y x" by auto
    have "b \<in> set (take 3 ?byAbs) \<longleftrightarrow> length (filter (\<lambda>y. ?L y b) ?byAbs) < 3"
      using srt asym bin by (rule take_sorted_wrt_count)
    also have "length (filter (\<lambda>y. ?L y b) ?byAbs) = length (filter (\<lambda>y. ?L y b) ?elig)"
      by (rule length_filter_sort_key)
    also have "filter (\<lambda>y. ?L y b) ?elig = filter (outranks cats b) base"
      unfolding filter_filter
      by (rule filter_cong[OF refl]) (auto simp: outranks_def)
    finally show ?thesis using mem False by simp
  qed
qed

lemma drivers_at_most_three:
  assumes "distinct (map categoryId base)"
  shows "length (filter (\<lambda>r. categoryId r \<in> topSet base) base) \<le> 3"
proof -
  let ?top = "take 3 (sort_key (\<lambda>r. - \<bar>deltaCost r\<bar>) (filter (\<lambda>r. \<bar>deltaCost r\<bar> > 0) base))"
  have ts: "topSet base = set (map categoryId ?top)" by (simp add: topSet_sort_key)
  have "length (filter (\<lambda>r. categoryId r \<in> topSet base) base)
          = length (filter (\<lambda>c. c \<in> topSet base) (map categoryId base))"
    by (simp add: filter_map comp_def)
  also have "\<dots> = card ({c. c \<in> topSet base} \<inter> set (map categoryId base))"
    using assms by (rule distinct_length_filter)
  also have "\<dots> \<le> card (topSet base)"
    by (rule card_mono) (auto simp: ts)
  also have "\<dots> \<le> length (map categoryId ?top)" unfolding ts by (rule card_length)
  also have "\<dots> \<le> 3" by simp
  finally show ?thesis .
qed

lemma length_filter_sortRows:
  "length (filter P (sortRows cats mode rs)) = length (filter P rs)"
  by (simp add: sortRows_def length_filter_js_sort)

text \<open>
  Claim C4. For a scenario A that follows the catalog, a row of the full row set is marked
  as top driver exactly when its delta is not zero and fewer than three rows outrank it
  (a larger absolute delta, or an equal one earlier in the catalog); at most three rows
  are marked; and the rows of the report, which are the full row set or its driver rows,
  hold at most three drivers, none of them of zero delta.
\<close>
theorem top_driver_selection:
  assumes "compareMode st" and "followsCatalog cats A"
    and "delta cats (st\<lparr>deltaDriversOnly := False\<rparr>) (Some A) (Some B) = Inr (Some full)"
    and "delta cats st (Some A) (Some B) = Inr (Some rep)"
  shows "(\<forall>r\<in>set (rows full).
            isTopDriver r \<longleftrightarrow>
              deltaCost r \<noteq> 0 \<and> length (filter (outranks cats r) (rows full)) < 3) \<and>
         length (filter isTopDriver (rows full)) \<le> 3 \<and>
         rows rep = (if deltaDriversOnly st then filter isTopDriver (rows full) else rows full) \<and>
         length (filter isTopDriver (rows rep)) \<le> 3 \<and>
         (\<forall>r\<in>set (rows rep). isTopDriver r \<longrightarrow> deltaCost r \<noteq> 0)"
proof -
  let ?t = "if totalCost A > 0 then totalCost A else 1"
  let ?st' = "st\<lparr>deltaDriversOnly := False\<rparr>"
  from assms(1) have cm: "compareMode ?st'" by simp
  from delta_Some[OF assms(1,4)] obtain base where
    base: "baseRows st ?t (categories A) (categories B) = Inr base"
    and rws: "rows rep = filterRows (deltaDriversOnly st) (sortRows cats (deltaSort st) (markRows base))"
    by blast
  from delta_Some[OF cm assms(3)] base
  have full: "rows full = sortRows cats (deltaSort st) (markRows base)"
    by (auto simp: baseRows_flag filterRows_def)
  note cat = marked_in_catalog_order[OF assms(2) base]
  from assms(2) have d: "distinct (map cat_id cats)" by (simp add: followsCatalog_def)
  have char: "isTopDriver r \<longleftrightarrow>
                deltaCost r \<noteq> 0 \<and> length (filter (outranks cats r) (rows full)) < 3"
    if "r \<in> set (rows full)" for r
  proof -
    from that full obtain b where b: "b \<in> set base" "r = markRow (topSet base) b"
      by (auto simp: set_sortRows markRows_def)
    have "length (filter (outranks cats r) (rows full))
            = length (filter (outranks cats r) (markRows base))"
      unfolding full by (rule length_filter_sortRows)
    also have "\<dots> = length (filter (outranks cats b) base)"
      by (simp add: markRows_def filter_map comp_def b(2))
    finally show ?thesis
      using driver_iff_outranked[OF cat(3) d b(1)] b(2) by simp
  qed
  have three: "length (filter isTopDriver (rows full)) \<le> 3"
  proof -
    have "length (filter isTopDriver (rows full)) = length (filter isTopDriver (markRows base))"
      unfolding full by (rule length_filter_sortRows)
    also have "\<dots> = length (filter (\<lambda>r. categoryId r \<in> topSet base) base)"
      by (simp add: markRows_def filter_map comp_def)
    also have "\<dots> \<le> 3"
      using d cat(3) by (intro drivers_at_most_three) simp
    finally show ?thesis .
  qed
  have rep: "rows rep = (if deltaDriversOnly st then filter isTopDriver (rows full) else rows full)"
    using rws full by (simp add: filterRows_def)
  have three': "length (filter isTopDriver (rows rep)) \<le> 3"
    using three rep by simp
  have nz: "deltaCost r \<noteq> 0" if "r \<in> set (rows rep)" "isTopDriver r" for r
  proof -
    from that(1) rep have "r \<in> set (rows full)" by (auto split: if_splits)
    with that(2) char show ?thesis by blast
  qed
  from char three rep three' nz show ?thesis by blast
qed

text \<open>C4 at the example: \<open>R\<close> and \<open>T\<close> tie in absolute delta, two rows outrank \<open>R\<close> and
  three outrank \<open>T\<close>, so the drivers are \<open>P\<close>, \<open>Q\<close> and \<open>R\<close>.\<close>
theorem top_driver_selection_witness:
  "isTopDriver rowR \<and> \<not> isTopDriver rowT \<and> \<bar>deltaCost rowR\<bar> = \<bar>deltaCost rowT\<bar> \<and>
   filter (outranks demoCats rowR) (rows demoReport) = [rowP, rowQ] \<and>
   filter (outranks demoCats rowT) (rows demoReport) = [rowP, rowQ, rowR] \<and>
   rows demoReportDrivers = filter isTopDriver (rows demoReport)"
proof -
  let ?st = "demoSt\<lparr>deltaDriversOnly := True\<rparr>"
  have cm: "compareMode ?st" by (simp add: demoSt_def)
  have fc: "followsCatalog demoCats demoA"
    by (simp add: followsCatalog_def demoCats_def demoA_def)
  have full: "delta demoCats (?st\<lparr>deltaDriversOnly := False\<rparr>) (Some demoA) (Some demoB)
                = Inr (Some demoReport)"
    using demo_delta by (simp add: demoSt_def)
  note w = top_driver_selection [OF cm fc full demo_delta_drivers]
  have on: "deltaDriversOnly ?st" by simp
  have memR: "rowR \<in> set (rows demoReport)" and memT: "rowT \<in> set (rows demoReport)"
    by (simp_all add: demoReport_def)
  have cntR: "filter (outranks demoCats rowR) (rows demoReport) = [rowP, rowQ]"
    and cntT: "filter (outranks demoCats rowT) (rows demoReport) = [rowP, rowQ, rowR]"
    by (simp_all add: demoReport_def outranks_def catalogPos_def demo_defs)
  have nz: "deltaCost rowR \<noteq> 0" "\<bar>deltaCost rowR\<bar> = \<bar>deltaCost rowT\<bar>"
    by (simp_all add: rowR_def rowT_def)
  from w[THEN conjunct1, rule_format, OF memR] cntR nz have dR: "isTopDriver rowR" by simp
  from w[THEN conjunct1, rule_format, OF memT] cntT have dT: "\<not> isTopDriver rowT" by simp
  from w[THEN conjunct2, THEN conjunct2, THEN conjunct1] on
  have rep: "rows demoReportDrivers = filter isTopDriver (rows demoReport)" by simp
  from dR dT nz(2) cntR cntT rep show ?thesis by blast
qed

subsection \<open>Normalised selections\<close>

lemma fold_default:
  "fold (\<lambda>c rec. rec(cat_id c \<mapsto>
            JObject [(''categoryId'', JString (cat_id c)), (''band'', JString ''MEDIUM'')])) cats m k
   = (if k \<in> set (map cat_id cats)
      then Some (JObject [(''categoryId'', JString k), (''band'', JString ''MEDIUM'')]) else m k)"
  by (induction cats arbitrary: m) auto

lemma buildDefaultSelections_apply:
  "buildDefaultSelections cats k =
     (if k \<in> set (map cat_id cats)
      then Some (JObject [(''categoryId'', JString k), (''band'', JString ''MEDIUM'')]) else None)"
  by (simp add: buildDefaultSelections_def fold_default)

lemma buildDefaultSelections_complete: "completeFor cats (buildDefaultSelections cats)"
  by (auto simp: completeFor_def buildDefaultSelections_apply selectionFor_def dom_def)

lemma fold_normalize:
  "fold (\<lambda>c out. let maybe = getProp input (cat_id c)
                  in if keeps (cat_id c) maybe then out(cat_id c \<mapsto> maybe) else out) cats fb k
   = (if k \<in> set (map cat_id cats) \<and> keeps k (getProp input k)
      then Some (getProp input k) else fb k)"
  by (induction cats arbitrary: fb) (auto simp: Let_def)

lemma normalizeSelections_apply:
  "normalizeSelections cats input fallback k =
     (if truthy input \<and> typeof input = ''object'' \<and> k \<in> set (map cat_id cats)
         \<and> keeps k (getProp input k)
      then Some (getProp input k) else fallback k)"
  by (simp add: normalizeSelections_def fold_normalize)

lemma keeps_selectionFor: "keeps k v \<Longrightarrow> selectionFor k v"
  by (auto simp: keeps_def selectionFor_def)

text \<open>
  Claim C10. Whatever the input, and for a fallback that is complete for the catalog,
  \<open>normalizeSelections\<close> returns a record whose keys are exactly the catalog ids; the entry
  of a key is the stored one when the input is an object and the stored entry passes the
  test of lines 48-53, and the fallback's entry otherwise; every entry is a complete
  selection for its key.
\<close>
theorem normalizeSelections_complete:
  assumes "completeFor cats fallback"
  shows "dom (normalizeSelections cats input fallback) = set (map cat_id cats) \<and>
         (\<forall>k\<in>set (map cat_id cats).
            normalizeSelections cats input fallback k =
              (if truthy input \<and> typeof input = ''object'' \<and> keeps k (getProp input k)
               then Some (getProp input k) else fallback k) \<and>
            (\<exists>v. normalizeSelections cats input fallback k = Some v \<and> selectionFor k v))"
proof -
  let ?out = "normalizeSelections cats input fallback"
  from assms have dm: "dom fallback = set (map cat_id cats)"
    and wf: "\<And>k. k \<in> set (map cat_id cats) \<Longrightarrow> \<exists>v. fallback k = Some v \<and> selectionFor k v"
    by (auto simp: completeFor_def)
  have "dom ?out = set (map cat_id cats)"
  proof (rule set_eqI)
    fix k
    show "k \<in> dom ?out \<longleftrightarrow> k \<in> set (map cat_id cats)"
      using dm by (auto simp: normalizeSelections_apply dom_def split: if_splits)
  qed
  moreover have "?out k = (if truthy input \<and> typeof input = ''object'' \<and> keeps k (getProp input k)
               then Some (getProp input k) else fallback k)"
    if "k \<in> set (map cat_id cats)" for k
    using that by (simp add: normalizeSelections_apply)
  moreover have "\<exists>v. ?out k = Some v \<and> selectionFor k v" if "k \<in> set (map cat_id cats)" for k
    using wf[OF that] that by (auto simp: normalizeSelections_apply keeps_selectionFor)
  ultimately show ?thesis by blast
qed

text \<open>C10 at the default fallback, for a stored object with malformed entries and for
  \<^verbatim>\<open>null\<close>.\<close>
theorem normalizeSelections_complete_witness:
  "dom (normalizeSelections demoCats storedInput (buildDefaultSelections demoCats))
     = {''P'', ''Q'', ''R'', ''S'', ''T''} \<and>
   normalizeSelections demoCats storedInput (buildDefaultSelections demoCats) ''P''
     = Some (JObject [(''categoryId'', JString ''P''), (''band'', JString ''HIGH''),
                      (''note'', JNumber 1)]) \<and>
   normalizeSelections demoCats storedInput (buildDefaultSelections demoCats) ''Q''
     = Some (JObject [(''categoryId'', JString ''Q''), (''band'', JString ''MEDIUM'')]) \<and>
   normalizeSelections demoCats storedInput (buildDefaultSelections demoCats) ''S''
     = Some (JObject [(''categoryId'', JString ''S''), (''band'', JString ''MEDIUM'')]) \<and>
   normalizeSelections demoCats JNull (buildDefaultSelections demoCats) ''T''
     = Some (JObject [(''categoryId'', JString ''T''), (''band'', JString ''MEDIUM'')])"
proof -
  note w = normalizeSelections_complete [OF buildDefaultSelections_complete, of demoCats]
  have ids: "set (map cat_id demoCats) = {''P'', ''Q'', ''R'', ''S'', ''T''}"
    by (simp add: demoCats_def)
  from w[of storedInput] w[of JNull] show ?thesis
    unfolding ids by (simp add: storedInput_def keeps_def buildDefaultSelections_apply demoCats_def)
qed

end
